theory Spec2Isabelle
  imports Complex_Main "HOL-Library.Char_ord" "HOL-Library.List_Lexorder"
begin

section \<open>Runtime values\<close>

text \<open>
  A JavaScript number is NaN, one of the two infinities, or a finite value. The finite
  values are read as exact rationals (the two zeros are the one rational 0: no operation
  of this module tells them apart).
\<close>

datatype jsnum = NaN | PosInf | NegInf | Finite rat

text \<open>
  The objects of the wrapper classes are opaque to this module: it sees their class
  (through \<open>instanceof\<close>), the string their own \<open>toString\<close> method returns, and the text
  \<open>JSON.stringify\<close> produces for them. A Collator has no \<open>toString\<close> of its own, and
  is represented by its JSON text alone.
\<close>

datatype wrapper = Wrapper (canonical: string) (json: string)

text \<open>
  What a caller can pass where the source says \<open>unknown\<close>: the primitives, function
  values, instances of the five wrapper classes, arrays, plain objects (their enumerable
  string-keyed data properties, in enumeration order), and Date objects as the example of
  a host object without enumerable properties (a Date carries the string its \<open>toString\<close>
  returns and the string its \<open>toJSON\<close> returns). Strings are sequences of 8-bit code units.
\<close>

datatype jsval =
    JUndefined
  | JNull
  | JBool bool
  | JNumber jsnum
  | JString string
  | JSymbol string
  | JFunction string
  | JColor wrapper
  | JCollator string
  | JFormatted wrapper
  | JPadding wrapper
  | JResolvedImage wrapper
  | JArray "jsval list"
  | JObject "(string \<times> jsval) list"
  | JDate string string

datatype js_error = TypeError | AssertionError | UserCall

fun js_typeof :: "jsval \<Rightarrow> string" where
  "js_typeof JUndefined = ''undefined''"
| "js_typeof JNull = ''object''"
| "js_typeof (JBool b) = ''boolean''"
| "js_typeof (JNumber n) = ''number''"
| "js_typeof (JString s) = ''string''"
| "js_typeof (JSymbol d) = ''symbol''"
| "js_typeof (JFunction f) = ''function''"
| "js_typeof v = ''object''"

fun num_ge :: "jsnum \<Rightarrow> rat \<Rightarrow> bool" where
  "num_ge NaN c = False"
| "num_ge PosInf c = True"
| "num_ge NegInf c = False"
| "num_ge (Finite q) c = (q \<ge> c)"

fun num_le :: "jsnum \<Rightarrow> rat \<Rightarrow> bool" where
  "num_le NaN c = False"
| "num_le PosInf c = False"
| "num_le NegInf c = True"
| "num_le (Finite q) c = (q \<le> c)"

text \<open>\<open>x >= c\<close> and \<open>x <= c\<close> once \<open>typeof x === 'number'\<close> has passed.\<close>

fun js_ge :: "jsval \<Rightarrow> rat \<Rightarrow> bool" where
  "js_ge (JNumber n) c = num_ge n c"
| "js_ge v c = False"

fun js_le :: "jsval \<Rightarrow> rat \<Rightarrow> bool" where
  "js_le (JNumber n) c = num_le n c"
| "js_le v c = False"

section \<open>isValue\<close>

fun isValue :: "jsval \<Rightarrow> bool"
  and isValue_items :: "jsval list \<Rightarrow> bool"
  and isValue_props :: "(string \<times> jsval) list \<Rightarrow> bool" where
  "isValue JNull = True"
| "isValue (JString s) = True"
| "isValue (JBool b) = True"
| "isValue (JNumber n) = True"
| "isValue (JColor c) = True"
| "isValue (JCollator c) = True"
| "isValue (JFormatted f) = True"
| "isValue (JPadding p) = True"
| "isValue (JResolvedImage i) = True"
| "isValue (JArray xs) = isValue_items xs"
| "isValue (JObject ps) = isValue_props ps"
| "isValue (JDate s j) = isValue_props []"
| "isValue JUndefined = False"
| "isValue (JSymbol d) = False"
| "isValue (JFunction f) = False"
| "isValue_items [] = True"
| "isValue_items (item # rest) = (if \<not> isValue item then False else isValue_items rest)"
| "isValue_props [] = True"
| "isValue_props (kv # rest) = (if \<not> isValue (snd kv) then False else isValue_props rest)"

section \<open>Type descriptors\<close>

text \<open>
  A type descriptor is an object, and the source compares descriptors with \<open>===\<close>, by
  identity. The imported constants are one object each. An array type is an object of
  its own, held in a store of array descriptors and named by its address there.
\<close>

datatype tref =
    NullType | NumberType | StringType | BooleanType | ColorType | ObjectType
  | ValueType | CollatorType | FormattedType | ResolvedImageType | PaddingType
  | ArrayAt nat

record array_type =
  itemType :: tref
  N :: "nat option"

type_synonym store = "array_type list"

text \<open>
  Modelled from the spec: \<open>array\<close>, the constructor of array types, is imported from the
  types module, which is not among the sources. By the spec, array types are parametric,
  not singletons, and two independently inferred array types are distinct objects: each
  call makes a new descriptor.
\<close>

definition array :: "tref \<Rightarrow> nat \<Rightarrow> store \<Rightarrow> tref \<times> store" where
  "array t n s = (ArrayAt (length s), s @ [\<lparr>itemType = t, N = Some n\<rparr>])"

section \<open>typeOf\<close>

text \<open>
  \<open>typeOf_items\<close> is the loop over the items of an array: its second argument is the
  local \<open>itemType\<close>, \<open>None\<close> while it is undefined.
\<close>

fun typeOf :: "jsval \<Rightarrow> store \<Rightarrow> js_error + tref \<times> store"
  and typeOf_items :: "jsval list \<Rightarrow> tref option \<Rightarrow> store \<Rightarrow> js_error + tref option \<times> store" where
  "typeOf JNull s = Inr (NullType, s)"
| "typeOf (JString x) s = Inr (StringType, s)"
| "typeOf (JBool b) s = Inr (BooleanType, s)"
| "typeOf (JNumber n) s = Inr (NumberType, s)"
| "typeOf (JColor c) s = Inr (ColorType, s)"
| "typeOf (JCollator c) s = Inr (CollatorType, s)"
| "typeOf (JFormatted f) s = Inr (FormattedType, s)"
| "typeOf (JPadding p) s = Inr (PaddingType, s)"
| "typeOf (JResolvedImage i) s = Inr (ResolvedImageType, s)"
| "typeOf (JArray xs) s =
     (case typeOf_items xs None s of
        Inl e \<Rightarrow> Inl e
      | Inr (it, s') \<Rightarrow>
          Inr (array (case it of None \<Rightarrow> ValueType | Some t \<Rightarrow> t) (length xs) s'))"
| "typeOf (JObject ps) s = Inr (ObjectType, s)"
| "typeOf (JDate d j) s = Inr (ObjectType, s)"
| "typeOf JUndefined s = Inl AssertionError"
| "typeOf (JSymbol d) s = Inl AssertionError"
| "typeOf (JFunction f) s = Inl AssertionError"
| "typeOf_items [] it s = Inr (it, s)"
| "typeOf_items (item # rest) it s =
     (case typeOf item s of
        Inl e \<Rightarrow> Inl e
      | Inr (t, s') \<Rightarrow>
          (case it of
             None \<Rightarrow> typeOf_items rest (Some t) s'
           | Some u \<Rightarrow> if u = t then typeOf_items rest it s' else Inr (Some ValueType, s')))"

section \<open>Conversion to strings\<close>

text \<open>The decimal digits of a non-negative integer, most significant first.\<close>

definition digit_char :: "int \<Rightarrow> char" where
  "digit_char d = ''0123456789'' ! nat (d mod 10)"

function int_digits :: "int \<Rightarrow> string" where
  "int_digits n = (if n < 10 then [digit_char n] else int_digits (n div 10) @ [digit_char (n mod 10)])"
  by pat_completeness auto
termination
  by (relation "measure nat") auto

declare int_digits.simps [simp del]

text \<open>
  \<open>Number::toString\<close> of ECMAScript, radix 10. For a positive finite \<open>x\<close> it takes the
  integers \<open>n\<close>, \<open>k\<close>, \<open>s\<close> with \<open>x = s * 10 ^ (n - k)\<close> and \<open>s\<close> of \<open>k\<close> digits, not
  ending in 0. \<open>decimal_exponent\<close> looks for the least \<open>e\<close> with \<open>x * 10 ^ e\<close> an
  integer; the search is bounded by the binary logarithm of the denominator of \<open>x\<close>,
  which is enough for every value with a finite decimal expansion (every double has
  one). The digits are those of the exact value.
\<close>

function decimal_exponent :: "int \<Rightarrow> rat \<Rightarrow> nat \<Rightarrow> nat" where
  "decimal_exponent fuel q e =
     (if fuel \<le> 0 \<or> of_int \<lfloor>q\<rfloor> = q then e
      else decimal_exponent (fuel div 2) (q * 10) (Suc e))"
  by pat_completeness auto
termination
  by (relation "measure (\<lambda>(fuel, q, e). nat fuel)") auto

declare decimal_exponent.simps [simp del]

fun strip_zeros :: "string \<Rightarrow> string" where
  "strip_zeros [] = []"
| "strip_zeros (c # cs) =
     (case strip_zeros cs of
        [] \<Rightarrow> if c = CHR ''0'' then [] else [c]
      | r # rs \<Rightarrow> c # r # rs)"

definition exponent_part :: "int \<Rightarrow> string" where
  "exponent_part n = ''e'' @ (if n - 1 < 0 then ''-'' else ''+'') @ int_digits \<bar>n - 1\<bar>"

definition positive_to_string :: "rat \<Rightarrow> string" where
  "positive_to_string q =
     (let e = decimal_exponent (snd (quotient_of q)) q 0;
          ds = int_digits \<lfloor>q * 10 ^ e\<rfloor>;
          sd = strip_zeros ds;
          k = int (length sd);
          n = int (length ds) - int e
      in if k \<le> n \<and> n \<le> 21 then sd @ replicate (nat (n - k)) CHR ''0''
         else if 0 < n \<and> n \<le> 21 then take (nat n) sd @ ''.'' @ drop (nat n) sd
         else if - 6 < n \<and> n \<le> 0 then ''0.'' @ replicate (nat (- n)) CHR ''0'' @ sd
         else if k = 1 then sd @ exponent_part n
         else take 1 sd @ ''.'' @ drop 1 sd @ exponent_part n)"

fun number_to_string :: "jsnum \<Rightarrow> string" where
  "number_to_string NaN = ''NaN''"
| "number_to_string PosInf = ''Infinity''"
| "number_to_string NegInf = ''-Infinity''"
| "number_to_string (Finite q) =
     (if q = 0 then ''0''
      else if q < 0 then ''-'' @ positive_to_string (- q)
      else positive_to_string q)"

text \<open>
  \<open>ToString\<close> of ECMAScript: a symbol raises TypeError; an array is its items joined by
  commas; a plain object goes through \<open>toString\<close> and \<open>valueOf\<close>, its own properties of
  these names before the ones of \<open>Object.prototype\<close>, and a call of a function value
  that the input carries is outside this model (\<open>UserCall\<close>). \<open>js_join\<close> is
  \<open>Array.prototype.join\<close>: undefined and null items give the empty string.
\<close>

definition object_to_string :: "(string \<times> jsval) list \<Rightarrow> js_error + string" where
  "object_to_string ps =
     (case map_of ps ''toString'' of
        None \<Rightarrow> Inr ''[object Object]''
      | Some (JFunction f) \<Rightarrow> Inl UserCall
      | Some v \<Rightarrow>
          (case map_of ps ''valueOf'' of
             Some (JFunction g) \<Rightarrow> Inl UserCall
           | _ \<Rightarrow> Inl TypeError))"

fun to_str :: "jsval \<Rightarrow> js_error + string"
  and js_join :: "string \<Rightarrow> jsval list \<Rightarrow> js_error + string" where
  "to_str JUndefined = Inr ''undefined''"
| "to_str JNull = Inr ''null''"
| "to_str (JBool b) = Inr (if b then ''true'' else ''false'')"
| "to_str (JNumber n) = Inr (number_to_string n)"
| "to_str (JString s) = Inr s"
| "to_str (JSymbol d) = Inl TypeError"
| "to_str (JFunction f) = Inr f"
| "to_str (JColor c) = Inr (canonical c)"
| "to_str (JCollator c) = Inr ''[object Object]''"
| "to_str (JFormatted f) = Inr (canonical f)"
| "to_str (JPadding p) = Inr (canonical p)"
| "to_str (JResolvedImage i) = Inr (canonical i)"
| "to_str (JArray xs) = js_join '','' xs"
| "to_str (JObject ps) = object_to_string ps"
| "to_str (JDate d j) = Inr d"
| "js_join sep [] = Inr []"
| "js_join sep (x # xs) =
     (case (if x = JUndefined \<or> x = JNull then Inr [] else to_str x) of
        Inl e \<Rightarrow> Inl e
      | Inr a \<Rightarrow>
          (if xs = [] then Inr a
           else case js_join sep xs of Inl e \<Rightarrow> Inl e | Inr b \<Rightarrow> Inr (a @ sep @ b)))"

section \<open>validateRGBA\<close>

definition rgb_constraint :: string where
  "rgb_constraint = '']: 'r', 'g', and 'b' must be between 0 and 255.''"

definition alpha_constraint :: string where
  "alpha_constraint = '']: 'a' must be between 0 and 1.''"

definition validateRGBA :: "jsval \<Rightarrow> jsval \<Rightarrow> jsval \<Rightarrow> jsval \<Rightarrow> js_error + string option" where
  "validateRGBA r g b a =
     (if \<not> (js_typeof r = ''number'' \<and> js_ge r 0 \<and> js_le r 255 \<and>
             js_typeof g = ''number'' \<and> js_ge g 0 \<and> js_le g 255 \<and>
             js_typeof b = ''number'' \<and> js_ge b 0 \<and> js_le b 255)
      then (let val = (if js_typeof a = ''number'' then [r, g, b, a] else [r, g, b])
            in case js_join '', '' val of
                 Inl e \<Rightarrow> Inl e
               | Inr t \<Rightarrow> Inr (Some (''Invalid rgba value ['' @ t @ rgb_constraint)))
      else if \<not> (js_typeof a = ''undefined'' \<or>
                  (js_typeof a = ''number'' \<and> js_ge a 0 \<and> js_le a 1))
      then (case js_join '', '' [r, g, b, a] of
              Inl e \<Rightarrow> Inl e
            | Inr t \<Rightarrow> Inr (Some (''Invalid rgba value ['' @ t @ alpha_constraint)))
      else Inr None)"

section \<open>Vocabulary of the specification\<close>

text \<open>A number, and a number in the closed range from \<open>lo\<close> to \<open>hi\<close>.\<close>

fun is_number :: "jsval \<Rightarrow> bool" where
  "is_number (JNumber n) = True"
| "is_number v = False"

fun in_range :: "rat \<Rightarrow> rat \<Rightarrow> jsval \<Rightarrow> bool" where
  "in_range lo hi (JNumber (Finite q)) = (lo \<le> q \<and> q \<le> hi)"
| "in_range lo hi v = False"


section \<open>Vocabulary for typeOf\<close>

fun is_array :: "jsval \<Rightarrow> bool" where
  "is_array (JArray xs) = True"
| "is_array v = False"

fun array_length :: "jsval \<Rightarrow> nat" where
  "array_length (JArray xs) = length xs"
| "array_length v = 0"

text \<open>
  The homogeneity merge in the words of the specification: an empty sequence gives the
  top Value type; otherwise the type of the first element is adopted, and the later
  elements are typed in order: one whose type is identical to the adopted type is passed
  over, and the first one whose type is not makes the item type the top Value type and
  ends the scan, the elements after it not being typed. The types of the elements are
  the ones \<open>typeOf\<close> gives.
\<close>

fun scan_later :: "tref \<Rightarrow> jsval list \<Rightarrow> store \<Rightarrow> js_error + tref \<times> store" where
  "scan_later t [] s = Inr (t, s)"
| "scan_later t (y # ys) s =
     (case typeOf y s of
        Inl e \<Rightarrow> Inl e
      | Inr (u, s') \<Rightarrow> if u = t then scan_later t ys s' else Inr (ValueType, s'))"

fun homogeneity_merge :: "jsval list \<Rightarrow> store \<Rightarrow> js_error + tref \<times> store" where
  "homogeneity_merge [] s = Inr (ValueType, s)"
| "homogeneity_merge (x # xs) s =
     (case typeOf x s of Inl e \<Rightarrow> Inl e | Inr (t, s') \<Rightarrow> scan_later t xs s')"

text \<open>
  A type as a structure, and the structure that a descriptor stands for in a store. The
  item type of a descriptor made by \<open>array\<close> exists before it, so the structure is read
  from the part of the store below the descriptor.
\<close>

datatype ty =
    TNull | TNumber | TString | TBoolean | TColor | TObject | TValue | TCollator
  | TFormatted | TResolvedImage | TPadding | TArray ty "nat option"

function view :: "store \<Rightarrow> tref \<Rightarrow> ty option" where
  "view s NullType = Some TNull"
| "view s NumberType = Some TNumber"
| "view s StringType = Some TString"
| "view s BooleanType = Some TBoolean"
| "view s ColorType = Some TColor"
| "view s ObjectType = Some TObject"
| "view s ValueType = Some TValue"
| "view s CollatorType = Some TCollator"
| "view s FormattedType = Some TFormatted"
| "view s ResolvedImageType = Some TResolvedImage"
| "view s PaddingType = Some TPadding"
| "view s (ArrayAt a) =
     (if a < length s
      then (case view (take a s) (itemType (s ! a)) of
              None \<Rightarrow> None
            | Some t \<Rightarrow> Some (TArray t (N (s ! a))))
      else None)"
  by pat_completeness auto
termination
  by (relation "measure (\<lambda>(s, r). length s)") auto

text \<open>
  The structure of the type inferred for a value, computed from the value alone, and the
  statement that \<open>typeOf\<close>, from any store, returns a descriptor of that structure: for an
  array a new descriptor, the last one of the store it returns, and for any other value
  one of the constants, the store unchanged. The structure is meant for Values: a
  candidate that is no Value, on which \<open>typeOf\<close> raises, is given the Object structure.
\<close>

fun is_tarray :: "ty \<Rightarrow> bool" where
  "is_tarray (TArray t n) = True"
| "is_tarray t = False"

fun item_shape :: "ty list \<Rightarrow> ty" where
  "item_shape [] = TValue"
| "item_shape [t] = t"
| "item_shape (t # u # us) =
     (if is_tarray t then TValue
      else if \<forall>x \<in> set (u # us). x = t then t else TValue)"

fun shape :: "jsval \<Rightarrow> ty" where
  "shape JNull = TNull"
| "shape (JString x) = TString"
| "shape (JBool b) = TBoolean"
| "shape (JNumber n) = TNumber"
| "shape (JColor c) = TColor"
| "shape (JCollator c) = TCollator"
| "shape (JFormatted f) = TFormatted"
| "shape (JPadding p) = TPadding"
| "shape (JResolvedImage i) = TResolvedImage"
| "shape (JArray xs) = TArray (item_shape (map shape xs)) (Some (length xs))"
| "shape v = TObject"

definition typed :: "jsval \<Rightarrow> bool" where
  "typed v = (\<forall>s. \<exists>r ext. typeOf v s = Inr (r, s @ ext) \<and> view (s @ ext) r = Some (shape v) \<and>
     (if is_array v then ext \<noteq> [] \<and> r = ArrayAt (length s + length ext - 1)
      else ext = [] \<and> (\<forall>a. r \<noteq> ArrayAt a)))"

section \<open>JSON.stringify\<close>

text \<open>
  \<open>JSON.stringify\<close> of ECMAScript with one argument. \<open>json_quote\<close> is its quoting of a
  string. At the top, undefined, a symbol and a function give undefined (\<open>None\<close>); as an
  item of an array they give \<open>null\<close>, and as the value of a property they leave the
  property out. A number that is not finite gives \<open>null\<close>. A Date is written through its
  \<open>toJSON\<close>; a property \<open>toJSON\<close> of a plain object that is a function would be called,
  which is outside this model (\<open>UserCall\<close>).
\<close>

definition hex_char :: "nat \<Rightarrow> char" where
  "hex_char d = ''0123456789abcdef'' ! (d mod 16)"

definition json_escape :: "char \<Rightarrow> string" where
  "json_escape c =
     (if c = CHR 0x22 then [CHR 0x5C, CHR 0x22]
      else if c = CHR 0x5C then [CHR 0x5C, CHR 0x5C]
      else if c = CHR 0x08 then [CHR 0x5C, CHR ''b'']
      else if c = CHR 0x0C then [CHR 0x5C, CHR ''f'']
      else if c = CHR 0x0A then [CHR 0x5C, CHR ''n'']
      else if c = CHR 0x0D then [CHR 0x5C, CHR ''r'']
      else if c = CHR 0x09 then [CHR 0x5C, CHR ''t'']
      else if (of_char c :: nat) < 32
      then [CHR 0x5C, CHR ''u'', CHR ''0'', CHR ''0'', hex_char (of_char c div 16), hex_char (of_char c mod 16)]
      else [c])"

definition json_quote :: "string \<Rightarrow> string" where
  "json_quote s = [CHR 0x22] @ concat (map json_escape s) @ [CHR 0x22]"

fun join_strings :: "string \<Rightarrow> string list \<Rightarrow> string" where
  "join_strings sep [] = []"
| "join_strings sep [x] = x"
| "join_strings sep (x # y # ys) = x @ sep @ join_strings sep (y # ys)"

fun json_stringify :: "jsval \<Rightarrow> js_error + string option"
  and json_items :: "jsval list \<Rightarrow> js_error + string list"
  and json_props :: "(string \<times> jsval) list \<Rightarrow> js_error + string list" where
  "json_stringify JUndefined = Inr None"
| "json_stringify (JSymbol d) = Inr None"
| "json_stringify (JFunction f) = Inr None"
| "json_stringify JNull = Inr (Some ''null'')"
| "json_stringify (JBool b) = Inr (Some (if b then ''true'' else ''false''))"
| "json_stringify (JNumber n) =
     Inr (Some (case n of Finite q \<Rightarrow> number_to_string n | _ \<Rightarrow> ''null''))"
| "json_stringify (JString s) = Inr (Some (json_quote s))"
| "json_stringify (JColor c) = Inr (Some (json c))"
| "json_stringify (JCollator c) = Inr (Some c)"
| "json_stringify (JFormatted f) = Inr (Some (json f))"
| "json_stringify (JPadding p) = Inr (Some (json p))"
| "json_stringify (JResolvedImage i) = Inr (Some (json i))"
| "json_stringify (JDate d j) = Inr (Some (json_quote j))"
| "json_stringify (JArray xs) =
     (case json_items xs of
        Inl e \<Rightarrow> Inl e
      | Inr parts \<Rightarrow> Inr (Some (''['' @ join_strings '','' parts @ '']'')))"
| "json_stringify (JObject ps) =
     (case map_of ps ''toJSON'' of
        Some (JFunction f) \<Rightarrow> Inl UserCall
      | _ \<Rightarrow>
          (case json_props ps of
             Inl e \<Rightarrow> Inl e
           | Inr parts \<Rightarrow> Inr (Some (''{'' @ join_strings '','' parts @ ''}''))))"
| "json_items [] = Inr []"
| "json_items (x # xs) =
     (case json_stringify x of
        Inl e \<Rightarrow> Inl e
      | Inr r \<Rightarrow>
          (case json_items xs of
             Inl e \<Rightarrow> Inl e
           | Inr rs \<Rightarrow> Inr ((case r of None \<Rightarrow> ''null'' | Some t \<Rightarrow> t) # rs)))"
| "json_props [] = Inr []"
| "json_props (kv # ps) =
     (case json_stringify (snd kv) of
        Inl e \<Rightarrow> Inl e
      | Inr r \<Rightarrow>
          (case json_props ps of
             Inl e \<Rightarrow> Inl e
           | Inr rs \<Rightarrow>
               Inr (case r of None \<Rightarrow> rs | Some t \<Rightarrow> (json_quote (fst kv) @ '':'' @ t) # rs)))"

section \<open>toString\<close>


section \<open>Vocabulary for isValue and toString\<close>

text \<open>
  The Value grammar in the words of the specification: null, a string, a boolean, a number,
  an instance of one of the five wrapper kinds, an array of Values, or a keyed mapping
  whose values are Values; nothing else.
\<close>

fun value_grammar :: "jsval \<Rightarrow> bool" where
  "value_grammar JNull = True"
| "value_grammar (JString s) = True"
| "value_grammar (JBool b) = True"
| "value_grammar (JNumber n) = True"
| "value_grammar (JColor c) = True"
| "value_grammar (JCollator c) = True"
| "value_grammar (JFormatted f) = True"
| "value_grammar (JPadding p) = True"
| "value_grammar (JResolvedImage i) = True"
| "value_grammar (JArray xs) = (\<forall>x \<in> set xs. value_grammar x)"
| "value_grammar (JObject ps) = (\<forall>kv \<in> set ps. value_grammar (snd kv))"
| "value_grammar v = False"

text \<open>
  A value in which every Date is read as the keyed mapping of its enumerable properties:
  it has none.
\<close>

fun as_mapping :: "jsval \<Rightarrow> jsval" where
  "as_mapping (JArray xs) = JArray (map as_mapping xs)"
| "as_mapping (JObject ps) = JObject (map (\<lambda>kv. (fst kv, as_mapping (snd kv))) ps)"
| "as_mapping (JDate d j) = JObject []"
| "as_mapping v = v"








section \<open>Properties of validateRGBA\<close>

lemma typeof_number: "(js_typeof v = ''number'') = is_number v"
  by (cases v) simp_all

lemma typeof_undefined: "(js_typeof v = ''undefined'') = (v = JUndefined)"
  by (cases v) simp_all

lemma in_range_cmp: "in_range lo hi v = (is_number v \<and> js_ge v lo \<and> js_le v hi)"
proof (cases v)
  case (JNumber n)
  then show ?thesis by (cases n) auto
qed simp_all


lemma positive_to_string_1: "positive_to_string 1 = ''1''"
  by code_simp

lemma positive_to_string_1_5: "positive_to_string (3 / 2) = ''1.5''"
  by code_simp


text \<open>The two guards of the source, read with the vocabulary of the specification.\<close>

lemma validateRGBA_cases:
  "validateRGBA r g b a =
     (if \<not> (in_range 0 255 r \<and> in_range 0 255 g \<and> in_range 0 255 b)
      then (case js_join '', '' (if is_number a then [r, g, b, a] else [r, g, b]) of
              Inl e \<Rightarrow> Inl e
            | Inr t \<Rightarrow> Inr (Some (''Invalid rgba value ['' @ t @ rgb_constraint)))
      else if \<not> (a = JUndefined \<or> in_range 0 1 a)
      then (case js_join '', '' [r, g, b, a] of
              Inl e \<Rightarrow> Inl e
            | Inr t \<Rightarrow> Inr (Some (''Invalid rgba value ['' @ t @ alpha_constraint)))
      else Inr None)"
  unfolding validateRGBA_def Let_def typeof_number typeof_undefined in_range_cmp
  by (simp only: conj_assoc)

text \<open>
  C3. When r, g and b are numbers in the closed range from 0 to 255, and a is undefined
  (omitted) or a number in the closed range from 0 to 1, validateRGBA returns null.
\<close>

theorem validateRGBA_accepts_in_range:
  assumes "in_range 0 255 r" "in_range 0 255 g" "in_range 0 255 b"
    and "a = JUndefined \<or> in_range 0 1 a"
  shows "validateRGBA r g b a = Inr None"
  using assms by (simp only: validateRGBA_cases simp_thms if_False if_True)

theorem validateRGBA_accepts_in_range_witness:
  "validateRGBA (JNumber (Finite 0)) (JNumber (Finite 128)) (JNumber (Finite 255)) JUndefined = Inr None
   \<and> validateRGBA (JNumber (Finite 0)) (JNumber (Finite 128)) (JNumber (Finite 255)) (JNumber (Finite (1 / 2))) = Inr None"
  using validateRGBA_accepts_in_range [of "JNumber (Finite 0)" "JNumber (Finite 128)" "JNumber (Finite 255)" JUndefined]
    validateRGBA_accepts_in_range [of "JNumber (Finite 0)" "JNumber (Finite 128)" "JNumber (Finite 255)" "JNumber (Finite (1 / 2))"]
  by simp

text \<open>
  C4, as stated, fails: with r out of range and a supplied as the string "0.5", the
  message echoes the three channels r, g, b only, although a was supplied.
\<close>

theorem validateRGBA_three_tuple_counterexample:
  "JString ''0.5'' \<noteq> JUndefined \<and>
   validateRGBA (JNumber (Finite (- 1))) (JNumber (Finite 0)) (JNumber (Finite 0)) (JString ''0.5'')
     = Inr (Some ''Invalid rgba value [-1, 0, 0]: 'r', 'g', and 'b' must be between 0 and 255.'')"
  by (simp add: validateRGBA_cases positive_to_string_1 rgb_constraint_def)

text \<open>
  C4, amended. Whenever validateRGBA returns a message, either r, g, b are not all numbers
  between 0 and 255, and the message names the r/g/b constraint and echoes [r, g, b, a]
  when a is a number and [r, g, b] otherwise; or r, g, b are in range, a is supplied and
  is not a number between 0 and 1, and the message names the alpha constraint and echoes
  [r, g, b, a]. The echoed channels are joined by a comma and a space.
\<close>

theorem validateRGBA_error_message:
  assumes "validateRGBA r g b a = Inr (Some msg)"
  shows "(\<not> (in_range 0 255 r \<and> in_range 0 255 g \<and> in_range 0 255 b) \<and>
          (\<exists>t. js_join '', '' (if is_number a then [r, g, b, a] else [r, g, b]) = Inr t \<and>
               msg = ''Invalid rgba value ['' @ t @ '']: 'r', 'g', and 'b' must be between 0 and 255.''))
       \<or> (in_range 0 255 r \<and> in_range 0 255 g \<and> in_range 0 255 b \<and>
          a \<noteq> JUndefined \<and> \<not> in_range 0 1 a \<and>
          (\<exists>t. js_join '', '' [r, g, b, a] = Inr t \<and>
               msg = ''Invalid rgba value ['' @ t @ '']: 'a' must be between 0 and 1.''))"
proof (cases "in_range 0 255 r \<and> in_range 0 255 g \<and> in_range 0 255 b")
  case rgb: True
  show ?thesis
  proof (cases "a = JUndefined \<or> in_range 0 1 a")
    case True
    with rgb have "validateRGBA r g b a = Inr None"
      by (simp only: validateRGBA_cases simp_thms if_False if_True)
    with assms show ?thesis by simp
  next
    case False
    with rgb have "validateRGBA r g b a =
        (case js_join '', '' [r, g, b, a] of Inl e \<Rightarrow> Inl e
         | Inr t \<Rightarrow> Inr (Some (''Invalid rgba value ['' @ t @ alpha_constraint)))"
      by (simp only: validateRGBA_cases simp_thms if_False if_True)
    with assms obtain t where "js_join '', '' [r, g, b, a] = Inr t"
      and "msg = ''Invalid rgba value ['' @ t @ alpha_constraint"
      by (cases "js_join '', '' [r, g, b, a]") (simp_all del: js_join.simps)
    with rgb False show ?thesis
      unfolding alpha_constraint_def by blast
  qed
next
  case False
  then have "validateRGBA r g b a =
      (case js_join '', '' (if is_number a then [r, g, b, a] else [r, g, b]) of Inl e \<Rightarrow> Inl e
       | Inr t \<Rightarrow> Inr (Some (''Invalid rgba value ['' @ t @ rgb_constraint)))"
    by (simp only: validateRGBA_cases simp_thms if_False if_True)
  with assms obtain t where "js_join '', '' (if is_number a then [r, g, b, a] else [r, g, b]) = Inr t"
    and "msg = ''Invalid rgba value ['' @ t @ rgb_constraint"
    by (cases "js_join '', '' (if is_number a then [r, g, b, a] else [r, g, b])") (simp_all del: js_join.simps)
  with False show ?thesis
    unfolding rgb_constraint_def by blast
qed

theorem validateRGBA_error_message_witness:
  "validateRGBA (JNumber (Finite 0)) (JNumber (Finite 0)) (JNumber (Finite 0)) (JNumber (Finite (3 / 2)))
     = Inr (Some ''Invalid rgba value [0, 0, 0, 1.5]: 'a' must be between 0 and 1.'') \<and>
   in_range 0 255 (JNumber (Finite 0)) \<and> \<not> in_range 0 1 (JNumber (Finite (3 / 2))) \<and>
   js_join '', '' [JNumber (Finite 0), JNumber (Finite 0), JNumber (Finite 0), JNumber (Finite (3 / 2))]
     = Inr ''0, 0, 0, 1.5''"
proof -
  have h: "validateRGBA (JNumber (Finite 0)) (JNumber (Finite 0)) (JNumber (Finite 0)) (JNumber (Finite (3 / 2)))
     = Inr (Some ''Invalid rgba value [0, 0, 0, 1.5]: 'a' must be between 0 and 1.'')"
    by (simp add: validateRGBA_cases positive_to_string_1_5 alpha_constraint_def)
  from validateRGBA_error_message [OF h] h show ?thesis
    by (simp add: positive_to_string_1_5)
qed




section \<open>Numbers that are not finite\<close>

text \<open>
  C10. NaN, Infinity and -Infinity are accepted by isValue, and typeOf gives each of them
  the Number type, the one descriptor of that kind, and makes no descriptor.
\<close>

theorem nonfinite_numbers_are_values:
  "isValue (JNumber NaN) \<and> isValue (JNumber PosInf) \<and> isValue (JNumber NegInf) \<and>
   typeOf (JNumber NaN) s = Inr (NumberType, s) \<and>
   typeOf (JNumber PosInf) s = Inr (NumberType, s) \<and>
   typeOf (JNumber NegInf) s = Inr (NumberType, s)"
  by simp

section \<open>Properties of typeOf\<close>

lemma typeOf_items_Some:
  "typeOf_items xs (Some t) s =
     (case scan_later t xs s of Inl e \<Rightarrow> Inl e | Inr (u, s') \<Rightarrow> Inr (Some u, s'))"
  by (induction xs arbitrary: s) (auto split: sum.splits)

lemma typeOf_items_None:
  "typeOf_items xs None s =
     (case xs of [] \<Rightarrow> Inr (None, s)
      | _ \<Rightarrow> (case homogeneity_merge xs s of Inl e \<Rightarrow> Inl e | Inr (u, s') \<Rightarrow> Inr (Some u, s')))"
  by (cases xs) (auto simp: typeOf_items_Some split: sum.splits)

lemma typeOf_array_merge:
  "typeOf (JArray xs) s =
     (case homogeneity_merge xs s of
        Inl e \<Rightarrow> Inl e
      | Inr (t, s') \<Rightarrow> Inr (ArrayAt (length s'), s' @ [\<lparr>itemType = t, N = Some (length xs)\<rparr>]))"
  by (cases xs) (auto simp: typeOf_items_Some array_def split: sum.splits)

lemma typeOf_total:
  "isValue v \<Longrightarrow> \<exists>r ext. typeOf v s = Inr (r, s @ ext)"
  "isValue_items xs \<Longrightarrow> \<exists>r ext. typeOf_items xs it s = Inr (r, s @ ext)"
proof (induction v s and xs it s rule: typeOf_typeOf_items.induct)
  case (10 xs s)
  then obtain r ext where "typeOf_items xs None s = Inr (r, s @ ext)" by auto
  then show ?case by (simp add: array_def)
next
  case (17 item rest it s)
  from 17 have iv: "isValue item" and ir: "isValue_items rest" by (auto split: if_splits)
  from 17(1)[OF iv] obtain t e1 where t: "typeOf item s = Inr (t, s @ e1)" by blast
  show ?case
  proof (cases it)
    case None
    from 17(2)[OF t refl None ir] obtain r e2
      where "typeOf_items rest (Some t) (s @ e1) = Inr (r, (s @ e1) @ e2)" by blast
    with t None show ?thesis by simp
  next
    case (Some u)
    show ?thesis
    proof (cases "u = t")
      case True
      from 17(3)[OF t refl Some True ir] obtain r e2
        where "typeOf_items rest it (s @ e1) = Inr (r, (s @ e1) @ e2)" by blast
      with t Some True show ?thesis by simp
    next
      case False
      with t Some show ?thesis by simp
    qed
  qed
qed simp_all

lemma homogeneity_total:
  assumes "isValue_items xs"
  shows "\<exists>t ext. homogeneity_merge xs s = Inr (t, s @ ext)"
proof (cases xs)
  case Nil
  then show ?thesis by simp
next
  case (Cons x rest)
  from typeOf_total(2) [OF assms, of None s] obtain r ext
    where "typeOf_items xs None s = Inr (r, s @ ext)" by blast
  with Cons show ?thesis
    by (simp only: typeOf_items_None list.case split: sum.splits) auto
qed

lemma typeOf_array_fresh:
  assumes "isValue (JArray xs)"
  shows "\<exists>t ext. homogeneity_merge xs s = Inr (t, s @ ext) \<and>
           typeOf (JArray xs) s =
             Inr (ArrayAt (length s + length ext), s @ ext @ [\<lparr>itemType = t, N = Some (length xs)\<rparr>])"
proof -
  from assms have "isValue_items xs" by simp
  from homogeneity_total [OF this, of s] obtain t ext
    where "homogeneity_merge xs s = Inr (t, s @ ext)" by blast
  then show ?thesis by (simp add: typeOf_array_merge del: typeOf.simps)
qed

text \<open>
  C1. For every array value, typeOf returns a new array descriptor whose length is the
  number of elements and whose item type is the one the homogeneity merge computes (the
  first element's type is adopted, later elements of the identical type are passed over,
  the first element of another type gives the top Value type and ends the scan, and the
  empty array gives the top Value type and length 0). In particular typeOf([]) is
  Array(Value, 0), typeOf([1,2,3]) is Array(Number, 3) and typeOf([1,"a"]) is
  Array(Value, 2).
\<close>

theorem typeOf_array_homogeneity:
  assumes "isValue (JArray xs)"
  shows "(\<exists>t s'. homogeneity_merge xs s = Inr (t, s') \<and>
            typeOf (JArray xs) s =
              Inr (ArrayAt (length s'), s' @ [\<lparr>itemType = t, N = Some (length xs)\<rparr>]))
       \<and> typeOf (JArray []) s = Inr (ArrayAt (length s), s @ [\<lparr>itemType = ValueType, N = Some 0\<rparr>])
       \<and> typeOf (JArray [JNumber (Finite 1), JNumber (Finite 2), JNumber (Finite 3)]) s
           = Inr (ArrayAt (length s), s @ [\<lparr>itemType = NumberType, N = Some 3\<rparr>])
       \<and> typeOf (JArray [JNumber (Finite 1), JString ''a'']) s
           = Inr (ArrayAt (length s), s @ [\<lparr>itemType = ValueType, N = Some 2\<rparr>])"
proof -
  from typeOf_array_fresh [OF assms, of s] obtain t ext
    where "homogeneity_merge xs s = Inr (t, s @ ext)"
      and "typeOf (JArray xs) s =
             Inr (ArrayAt (length s + length ext), s @ ext @ [\<lparr>itemType = t, N = Some (length xs)\<rparr>])"
    by blast
  then have "\<exists>t s'. homogeneity_merge xs s = Inr (t, s') \<and>
            typeOf (JArray xs) s =
              Inr (ArrayAt (length s'), s' @ [\<lparr>itemType = t, N = Some (length xs)\<rparr>])"
    by (intro exI [of _ t] exI [of _ "s @ ext"]) simp
  then show ?thesis by (simp add: array_def)
qed

theorem typeOf_array_homogeneity_witness:
  "homogeneity_merge [JString ''a'', JString ''b'', JNull, JString ''c''] [] = Inr (ValueType, []) \<and>
   typeOf (JArray [JString ''a'', JString ''b'', JNull, JString ''c'']) []
     = Inr (ArrayAt 0, [\<lparr>itemType = ValueType, N = Some 4\<rparr>])"
  using typeOf_array_homogeneity [of "[JString ''a'', JString ''b'', JNull, JString ''c'']" "[]"]
  by (simp add: array_def)

text \<open>
  C2. For every array value whose elements are arrays, two of them of different lengths,
  typeOf returns an array descriptor whose item type is the top Value type: the
  descriptors of the first two elements are two objects.
\<close>

theorem typeOf_nested_arrays_differing_lengths:
  assumes "isValue (JArray xs)"
    and "\<forall>x \<in> set xs. is_array x"
    and "\<exists>x \<in> set xs. \<exists>y \<in> set xs. array_length x \<noteq> array_length y"
  shows "\<exists>a s'. typeOf (JArray xs) s = Inr (ArrayAt a, s') \<and> a < length s' \<and>
           s' ! a = \<lparr>itemType = ValueType, N = Some (length xs)\<rparr>"
proof -
  from assms(3) obtain x y rest where xs: "xs = x # y # rest"
    by (cases xs; cases "tl xs") auto
  with assms(2) obtain xs1 ys1 where x: "x = JArray xs1" and y: "y = JArray ys1"
    by (cases x; cases y) auto
  from assms(1) xs x y have vx: "isValue (JArray xs1)" and vy: "isValue (JArray ys1)"
    by (auto split: if_splits)
  from typeOf_array_fresh [OF vx, of s] obtain t1 e1
    where tx: "typeOf (JArray xs1) s =
      Inr (ArrayAt (length s + length e1), s @ e1 @ [\<lparr>itemType = t1, N = Some (length xs1)\<rparr>])"
    by blast
  define s1 where "s1 = s @ e1 @ [\<lparr>itemType = t1, N = Some (length xs1)\<rparr>]"
  from typeOf_array_fresh [OF vy, of s1] obtain t2 e2
    where ty: "typeOf (JArray ys1) s1 =
      Inr (ArrayAt (length s1 + length e2), s1 @ e2 @ [\<lparr>itemType = t2, N = Some (length ys1)\<rparr>])"
    by blast
  define s2 where "s2 = s1 @ e2 @ [\<lparr>itemType = t2, N = Some (length ys1)\<rparr>]"
  have "length s + length e1 \<noteq> length s1 + length e2"
    by (simp add: s1_def)
  with tx ty have "homogeneity_merge xs s = Inr (ValueType, s2)"
    unfolding xs x y by (simp add: s1_def s2_def del: typeOf.simps)
  then have "typeOf (JArray xs) s =
      Inr (ArrayAt (length s2), s2 @ [\<lparr>itemType = ValueType, N = Some (length xs)\<rparr>])"
    by (simp add: typeOf_array_merge del: typeOf.simps)
  then show ?thesis by simp
qed

theorem typeOf_nested_arrays_differing_lengths_witness:
  "typeOf (JArray [JArray [JNumber (Finite 1), JNumber (Finite 2)], JArray [JNumber (Finite 3)]]) []
     = Inr (ArrayAt 2, [\<lparr>itemType = NumberType, N = Some 2\<rparr>, \<lparr>itemType = NumberType, N = Some 1\<rparr>,
                        \<lparr>itemType = ValueType, N = Some 2\<rparr>])"
  using typeOf_nested_arrays_differing_lengths
    [of "[JArray [JNumber (Finite 1), JNumber (Finite 2)], JArray [JNumber (Finite 3)]]" "[]"]
  by (simp add: array_def)

lemma view_singleton: "\<forall>a. t \<noteq> ArrayAt a \<Longrightarrow> view s t = view s' t"
  by (cases t) simp_all

lemma view_singleton_not_array: "\<forall>a. t \<noteq> ArrayAt a \<Longrightarrow> view s t = Some T \<Longrightarrow> \<not> is_tarray T"
  by (cases t) auto

lemma view_singleton_inj:
  "\<forall>a. t \<noteq> ArrayAt a \<Longrightarrow> \<forall>a. u \<noteq> ArrayAt a \<Longrightarrow> view s t = view s' u \<Longrightarrow> t = u"
  by (cases t; cases u) simp_all

lemma view_new:
  "view (s @ [e]) (ArrayAt (length s)) =
     (case view s (itemType e) of None \<Rightarrow> None | Some t \<Rightarrow> Some (TArray t (N e)))"
  by (simp split: option.splits)

lemma is_array_shape: "is_array v \<Longrightarrow> is_tarray (shape v)"
  by (cases v) simp_all

lemma scan_singleton:
  assumes "\<forall>y \<in> set ys. typed y" and "\<forall>a. t \<noteq> ArrayAt a" and "view s t = Some T"
  shows "\<exists>ext. scan_later t ys s = Inr (if \<forall>y \<in> set ys. shape y = T then t else ValueType, s @ ext)"
  using assms
proof (induction ys arbitrary: s)
  case Nil
  then show ?case by simp
next
  case (Cons y ys)
  from Cons.prems(1) have "typed y" by simp
  then obtain u e1 where u: "typeOf y s = Inr (u, s @ e1)"
    and vu: "view (s @ e1) u = Some (shape y)"
    and k: "if is_array y then e1 \<noteq> [] \<and> u = ArrayAt (length s + length e1 - 1)
            else e1 = [] \<and> (\<forall>a. u \<noteq> ArrayAt a)"
    unfolding typed_def by blast
  have vt: "view (s @ e1) t = Some T"
    using view_singleton [OF Cons.prems(2), of "s @ e1" s] Cons.prems(3) by simp
  have eq: "(u = t) = (shape y = T)"
  proof (cases "is_array y")
    case True
    with k Cons.prems(2) have "u \<noteq> t" by auto
    moreover from True have "is_tarray (shape y)" by (rule is_array_shape)
    with view_singleton_not_array [OF Cons.prems(2) Cons.prems(3)] have "shape y \<noteq> T" by auto
    ultimately show ?thesis by simp
  next
    case False
    with k have su: "\<forall>a. u \<noteq> ArrayAt a" by simp
    show ?thesis
    proof
      assume "u = t"
      with vu vt show "shape y = T" by simp
    next
      assume "shape y = T"
      with vu vt have "view (s @ e1) t = view (s @ e1) u" by simp
      from view_singleton_inj [OF Cons.prems(2) su this] show "u = t" by simp
    qed
  qed
  show ?case
  proof (cases "shape y = T")
    case True
    from Cons.IH [of "s @ e1"] Cons.prems vt obtain e2
      where "scan_later t ys (s @ e1) =
        Inr (if \<forall>y \<in> set ys. shape y = T then t else ValueType, (s @ e1) @ e2)"
      by auto
    with u eq True show ?thesis by (auto simp del: typeOf.simps)
  next
    case False
    with u eq show ?thesis by (auto simp del: typeOf.simps)
  qed
qed

lemma scan_array:
  assumes "\<forall>y \<in> set ys. typed y" and "a < length s" and "ys \<noteq> []"
  shows "\<exists>ext. scan_later (ArrayAt a) ys s = Inr (ValueType, s @ ext)"
proof -
  from assms(3) obtain y rest where ys: "ys = y # rest" by (cases ys) auto
  with assms(1) have "typed y" by simp
  then obtain u e1 where u: "typeOf y s = Inr (u, s @ e1)"
    and k: "if is_array y then e1 \<noteq> [] \<and> u = ArrayAt (length s + length e1 - 1)
            else e1 = [] \<and> (\<forall>a. u \<noteq> ArrayAt a)"
    unfolding typed_def by blast
  from k assms(2) have "u \<noteq> ArrayAt a"
    by (cases "is_array y") (auto simp: neq_Nil_conv)
  with u ys show ?thesis by (auto simp del: typeOf.simps)
qed

lemma typed_array:
  assumes ih: "\<forall>x \<in> set xs. typed x"
  shows "typed (JArray xs)"
  unfolding typed_def
proof
  fix s
  have "\<exists>t ext. homogeneity_merge xs s = Inr (t, s @ ext) \<and>
          view (s @ ext) t = Some (item_shape (map shape xs))"
  proof (cases xs)
    case Nil
    then show ?thesis by simp
  next
    case (Cons x rest)
    with ih have "typed x" and rest: "\<forall>y \<in> set rest. typed y" by simp_all
    then obtain t e1 where t: "typeOf x s = Inr (t, s @ e1)"
      and vt: "view (s @ e1) t = Some (shape x)"
      and k: "if is_array x then e1 \<noteq> [] \<and> t = ArrayAt (length s + length e1 - 1)
              else e1 = [] \<and> (\<forall>a. t \<noteq> ArrayAt a)"
      unfolding typed_def by blast
    show ?thesis
    proof (cases rest)
      case Nil
      with Cons t vt show ?thesis by (simp del: typeOf.simps)
    next
      case (Cons y ys)
      show ?thesis
      proof (cases "is_array x")
        case True
        with k have "t = ArrayAt (length s + length e1 - 1)" and "length s + length e1 - 1 < length (s @ e1)"
          by (auto simp: neq_Nil_conv)
        with scan_array [OF rest, of "length s + length e1 - 1" "s @ e1"] Cons
        obtain e2 where "scan_later t rest (s @ e1) = Inr (ValueType, (s @ e1) @ e2)"
          by auto
        with t \<open>xs = x # rest\<close> Cons is_array_shape [OF True] show ?thesis
          by (auto simp del: typeOf.simps scan_later.simps)
      next
        case False
        with k have st: "\<forall>a. t \<noteq> ArrayAt a" by simp
        from scan_singleton [OF rest st vt] obtain e2
          where sc: "scan_later t rest (s @ e1) =
            Inr (if \<forall>y \<in> set rest. shape y = shape x then t else ValueType, (s @ e1) @ e2)"
          by blast
        have nt: "\<not> is_tarray (shape x)"
          by (rule view_singleton_not_array [OF st vt])
        have vt': "view (s @ e1 @ e2) t = Some (shape x)"
          using view_singleton [OF st, of "s @ e1 @ e2" "s @ e1"] vt by simp
        have "(\<forall>u \<in> set (map shape rest). u = shape x) = (\<forall>y \<in> set rest. shape y = shape x)"
          by auto
        with nt Cons have "item_shape (map shape xs) =
            (if \<forall>y \<in> set rest. shape y = shape x then shape x else TValue)"
          unfolding \<open>xs = x # rest\<close> by (simp del: set_map)
        with t sc vt' \<open>xs = x # rest\<close> show ?thesis
          by (auto simp del: typeOf.simps scan_later.simps)
      qed
    qed
  qed
  then obtain t ext where hm: "homogeneity_merge xs s = Inr (t, s @ ext)"
    and v: "view (s @ ext) t = Some (item_shape (map shape xs))" by blast
  let ?e = "\<lparr>itemType = t, N = Some (length xs)\<rparr>"
  from hm have r: "typeOf (JArray xs) s = Inr (ArrayAt (length (s @ ext)), s @ (ext @ [?e]))"
    by (simp add: typeOf_array_merge del: typeOf.simps)
  have "view ((s @ ext) @ [?e]) (ArrayAt (length (s @ ext))) = Some (shape (JArray xs))"
    unfolding view_new using v by simp
  with r show "\<exists>r ext. typeOf (JArray xs) s = Inr (r, s @ ext) \<and>
      view (s @ ext) r = Some (shape (JArray xs)) \<and>
      (if is_array (JArray xs) then ext \<noteq> [] \<and> r = ArrayAt (length s + length ext - 1)
       else ext = [] \<and> (\<forall>a. r \<noteq> ArrayAt a))"
    by (intro exI [of _ "ArrayAt (length (s @ ext))"] exI [of _ "ext @ [?e]"]) simp
qed

lemma isValue_items_all: "isValue_items xs = (\<forall>x \<in> set xs. isValue x)"
  by (induction xs) auto

lemma isValue_typed: "isValue v \<Longrightarrow> typed v"
proof (induction v)
  case (JArray xs)
  then have "\<forall>x \<in> set xs. typed x" by (simp add: isValue_items_all)
  then show ?case by (rule typed_array)
qed (simp_all add: typed_def)

text \<open>
  C7, as stated, fails: typeOf makes a new descriptor for every array, so typing the empty
  array twice gives two descriptors that are not identical.
\<close>

theorem typeOf_fresh_descriptor_counterexample:
  "typeOf (JArray []) [] = Inr (ArrayAt 0, [\<lparr>itemType = ValueType, N = Some 0\<rparr>]) \<and>
   typeOf (JArray []) [\<lparr>itemType = ValueType, N = Some 0\<rparr>]
     = Inr (ArrayAt 1, [\<lparr>itemType = ValueType, N = Some 0\<rparr>, \<lparr>itemType = ValueType, N = Some 0\<rparr>]) \<and>
   ArrayAt 0 \<noteq> ArrayAt 1"
  by (simp add: array_def)

text \<open>
  C7, amended. For every value, two runs of typeOf, from any two stores, return descriptors
  of the same structure (the same item types and lengths, at every depth), and the
  identical descriptor when the value is not an array.
\<close>

theorem typeOf_rerun_same_structure:
  assumes "isValue v"
  shows "\<exists>r1 t1 r2 t2 T. typeOf v s1 = Inr (r1, t1) \<and> typeOf v s2 = Inr (r2, t2) \<and>
           view t1 r1 = Some T \<and> view t2 r2 = Some T \<and> (is_array v \<or> r1 = r2)"
proof -
  from isValue_typed [OF assms] have ty: "typed v" .
  from ty obtain r1 e1 where a: "typeOf v s1 = Inr (r1, s1 @ e1)"
    and va: "view (s1 @ e1) r1 = Some (shape v)"
    and ka: "if is_array v then e1 \<noteq> [] \<and> r1 = ArrayAt (length s1 + length e1 - 1)
             else e1 = [] \<and> (\<forall>a. r1 \<noteq> ArrayAt a)"
    unfolding typed_def by blast
  from ty obtain r2 e2 where b: "typeOf v s2 = Inr (r2, s2 @ e2)"
    and vb: "view (s2 @ e2) r2 = Some (shape v)"
    and kb: "if is_array v then e2 \<noteq> [] \<and> r2 = ArrayAt (length s2 + length e2 - 1)
             else e2 = [] \<and> (\<forall>a. r2 \<noteq> ArrayAt a)"
    unfolding typed_def by blast
  have "is_array v \<or> r1 = r2"
  proof (cases "is_array v")
    case False
    with ka kb have "\<forall>a. r1 \<noteq> ArrayAt a" "\<forall>a. r2 \<noteq> ArrayAt a" by simp_all
    from view_singleton_inj [OF this, of "s1 @ e1" "s2 @ e2"] va vb show ?thesis by simp
  qed simp
  with a b va vb show ?thesis by blast
qed

theorem typeOf_rerun_same_structure_witness:
  "(\<exists>r1 t1 r2 t2. typeOf (JArray [JArray [JNumber (Finite 1)]]) [] = Inr (r1, t1) \<and>
      typeOf (JArray [JArray [JNumber (Finite 1)]]) [\<lparr>itemType = ValueType, N = Some 0\<rparr>] = Inr (r2, t2) \<and>
      view t1 r1 = Some (TArray (TArray TNumber (Some 1)) (Some 1)) \<and>
      view t2 r2 = Some (TArray (TArray TNumber (Some 1)) (Some 1)))
   \<and> (\<exists>r1 t1 r2 t2. typeOf (JString ''a'') [] = Inr (r1, t1) \<and>
      typeOf (JString ''a'') [\<lparr>itemType = ValueType, N = Some 0\<rparr>] = Inr (r2, t2) \<and> r1 = r2)"
  using typeOf_rerun_same_structure [of "JArray [JArray [JNumber (Finite 1)]]" "[]" "[\<lparr>itemType = ValueType, N = Some 0\<rparr>]"]
    typeOf_rerun_same_structure [of "JString ''a''" "[]" "[\<lparr>itemType = ValueType, N = Some 0\<rparr>]"]
  by (simp add: array_def)

section \<open>Properties of isValue and toString\<close>

lemma isValue_props_all: "isValue_props ps = (\<forall>kv \<in> set ps. isValue (snd kv))"
  by (induction ps) auto

text \<open>
  C5, as stated, fails: a Date is an object that is no array and no wrapper, so isValue
  loops over its enumerable properties, finds none and returns true; the grammar has no
  place for a Date.
\<close>

theorem isValue_date_counterexample:
  "isValue (JDate ''Thu Jan 01 1970 00:00:00 GMT+0000 (Coordinated Universal Time)'' ''1970-01-01T00:00:00.000Z'') \<and>
   \<not> value_grammar (JDate ''Thu Jan 01 1970 00:00:00 GMT+0000 (Coordinated Universal Time)'' ''1970-01-01T00:00:00.000Z'')"
  by simp

lemma isValue_grammar: "isValue v = value_grammar (as_mapping v)"
proof (induction v)
  case (JArray xs)
  then show ?case by (simp add: isValue_items_all)
next
  case (JObject ps)
  then show ?case by (auto simp: isValue_props_all snds.simps)
qed simp_all

text \<open>
  C5, amended. isValue returns true if and only if the candidate conforms to the Value
  grammar once every other non-null object, such as a Date, is read as the keyed mapping
  of its enumerable properties. So it returns true for a Date, and false for undefined,
  for a function value and for a symbol.
\<close>

theorem isValue_iff_grammar:
  "isValue v = value_grammar (as_mapping v) \<and>
   isValue (JDate d j) \<and>
   \<not> isValue JUndefined \<and> \<not> isValue (JFunction f) \<and> \<not> isValue (JSymbol n)"
  by (simp add: isValue_grammar)

theorem isValue_iff_grammar_witness:
  "isValue (JArray [JObject [(''a'', JNumber (Finite 1)), (''d'', JDate ''Thu'' ''1970'')], JNull]) \<and>
   \<not> isValue (JObject [(''a'', JArray [JFunction ''f''])])"
  using isValue_iff_grammar [of "JArray [JObject [(''a'', JNumber (Finite 1)), (''d'', JDate ''Thu'' ''1970'')], JNull]"]
    isValue_iff_grammar [of "JObject [(''a'', JArray [JFunction ''f''])]"]
  by simp











end
